theory Spec2Isabelle
  imports Main "HOL-Library.Word"
begin

section \<open>FedClusterFHE: the contract's data model\<close>

text \<open>
  The development embeds \<^verbatim>\<open>src/contracts/FedClusterFHE.sol\<close>. A \<^verbatim>\<open>uint256\<close> is a
  natural number; the checked arithmetic of Solidity 0.8 (a revert with \<^verbatim>\<open>Panic(0x11)\<close>
  on overflow) is written out wherever the contract increments one. A \<^verbatim>\<open>bytes\<close> value
  is a list of 8-bit characters. Gas is not modelled.
\<close>

definition MAX_UINT256 :: nat where
  "MAX_UINT256 = 2 ^ 256 - 1"

type_synonym bytes = "char list"

text \<open>
  Modelled from the spec: the type \<^verbatim>\<open>euint32\<close> and the operations \<^verbatim>\<open>FHE.isInitialized\<close>,
  \<^verbatim>\<open>FHE.asEuint32\<close> and \<^verbatim>\<open>FHE.add\<close> belong to the imported library
  \<^verbatim>\<open>@fhevm/solidity\<close>, which is not part of the sources. The specification calls such a value
  a ciphertext handle, "an opaque reference to an encrypted value manipulable without
  decryption", and the cluster aggregate "an encrypted running count" that is initialised to
  "an encrypted zero" and incremented "by an encrypted one". A handle is therefore either the
  unset handle (the default of a storage slot) or the encryption of a 32-bit value, and the
  addition is the addition of 32-bit values; an unset operand of the addition counts as zero.
\<close>

datatype euint32 = Uninitialized | Enc "32 word"

fun isInitialized :: "euint32 \<Rightarrow> bool" where
  "isInitialized Uninitialized = False"
| "isInitialized (Enc v) = True"

definition asEuint32 :: "32 word \<Rightarrow> euint32" where
  "asEuint32 v = Enc v"

fun plaintext :: "euint32 \<Rightarrow> 32 word" where
  "plaintext Uninitialized = 0"
| "plaintext (Enc v) = v"

definition fhe_add :: "euint32 \<Rightarrow> euint32 \<Rightarrow> euint32" where
  "fhe_add a b = Enc (plaintext a + plaintext b)"

record EncryptedDataPoint =
  id_dp :: nat
  encryptedFeatures :: euint32
  encryptedDataOwner :: euint32
  encryptedClusterId :: euint32
  timestamp :: nat

record DecryptedDataPoint =
  features :: string
  dataOwner :: string
  clusterId :: string
  isClustered :: bool

datatype event =
    DataPointSubmitted nat nat
  | ClusteringRequested nat
  | DataPointClustered nat

datatype selector = PerformClusteringSelector | DecryptClusterStatsSelector

text \<open>
  The reasons a call reverts: the three \<^verbatim>\<open>require\<close> messages of the contract, a failed
  \<^verbatim>\<open>FHE.checkSignatures\<close>, a failed \<^verbatim>\<open>abi.decode\<close>, and the two panics of the language
  (arithmetic overflow, \<^verbatim>\<open>Panic(0x11)\<close>, and an array index out of bounds, \<^verbatim>\<open>Panic(0x32)\<close>).
\<close>

datatype error =
    AlreadyClustered
  | InvalidRequest
  | ClusterNotFound
  | InvalidProof
  | DecodeError
  | ArithmeticOverflow
  | IndexOutOfBounds

text \<open>
  The storage of the contract, the log of emitted events, and the one piece of state of the
  decryption oracle that the contract depends on.

  Modelled from the spec: \<^verbatim>\<open>FHE.requestDecryption\<close> is library code that is not part of the
  sources. The specification says that the request id is "assigned by the decryption oracle"
  and that a request "always produces a fresh, previously-unseen requestId"; the oracle is
  modelled by the counter \<open>counterRequest\<close> of the ids it has handed out.
\<close>

record world =
  dataPointCount :: nat
  encryptedDataPoints :: "nat \<Rightarrow> EncryptedDataPoint"
  decryptedDataPoints :: "nat \<Rightarrow> DecryptedDataPoint"
  encryptedClusterStats :: "string \<Rightarrow> euint32"
  clusterList :: "string list"
  requestToDataPointId :: "nat \<Rightarrow> nat"
  counterRequest :: nat
  events :: "event list"

text \<open>
  The primitives that the contract uses and that neither the sources nor the specification
  define are parameters of the model: the signature check of the oracle, the two uses of
  \<^verbatim>\<open>abi.decode\<close> (a tuple of three strings, a single \<^verbatim>\<open>uint32\<close>; \<open>None\<close> when the decoder
  reverts) and \<^verbatim>\<open>keccak256(abi.encodePacked(s))\<close> read as a \<^verbatim>\<open>uint256\<close>.
\<close>

record fhe_env =
  checkSignatures :: "nat \<Rightarrow> bytes \<Rightarrow> bytes \<Rightarrow> bool"
  decodeStrings :: "bytes \<Rightarrow> (string \<times> string \<times> string) option"
  decodeUint32 :: "bytes \<Rightarrow> 32 word option"
  keccak256 :: "string \<Rightarrow> nat"

definition emptyEncrypted :: EncryptedDataPoint where
  "emptyEncrypted = \<lparr>id_dp = 0, encryptedFeatures = Uninitialized,
     encryptedDataOwner = Uninitialized, encryptedClusterId = Uninitialized, timestamp = 0\<rparr>"

definition emptyDecrypted :: DecryptedDataPoint where
  "emptyDecrypted = \<lparr>features = [], dataOwner = [], clusterId = [], isClustered = False\<rparr>"

text \<open>The state after deployment: every mapping holds its default value.\<close>

definition init :: world where
  "init = \<lparr>dataPointCount = 0,
     encryptedDataPoints = (\<lambda>_. emptyEncrypted),
     decryptedDataPoints = (\<lambda>_. emptyDecrypted),
     encryptedClusterStats = (\<lambda>_. Uninitialized),
     clusterList = [],
     requestToDataPointId = (\<lambda>_. 0),
     counterRequest = 0,
     events = []\<rparr>"

section \<open>The entry points\<close>

definition requestDecryption :: "world \<Rightarrow> euint32 list \<Rightarrow> selector \<Rightarrow> nat \<times> world" where
  "requestDecryption w ciphertexts sel =
     (counterRequest w, w\<lparr>counterRequest := counterRequest w + 1\<rparr>)"

definition submitEncryptedDataPoint ::
  "world \<Rightarrow> euint32 \<Rightarrow> euint32 \<Rightarrow> euint32 \<Rightarrow> nat \<Rightarrow> error + world" where
  "submitEncryptedDataPoint w encF encO encC now =
     (if dataPointCount w = MAX_UINT256 then Inl ArithmeticOverflow
      else
        let newId = dataPointCount w + 1 in
        Inr (w\<lparr>dataPointCount := newId,
               encryptedDataPoints := (encryptedDataPoints w)(newId :=
                 \<lparr>id_dp = newId, encryptedFeatures = encF, encryptedDataOwner = encO,
                  encryptedClusterId = encC, timestamp = now\<rparr>),
               decryptedDataPoints := (decryptedDataPoints w)(newId :=
                 \<lparr>features = [], dataOwner = [], clusterId = [], isClustered = False\<rparr>),
               events := events w @ [DataPointSubmitted newId now]\<rparr>))"

definition requestFederatedClustering :: "world \<Rightarrow> nat \<Rightarrow> error + world" where
  "requestFederatedClustering w dataPointId =
     (let dp = encryptedDataPoints w dataPointId in
      if isClustered (decryptedDataPoints w dataPointId) then Inl AlreadyClustered
      else
        let ciphertexts = [encryptedFeatures dp, encryptedDataOwner dp, encryptedClusterId dp];
            (reqId, w1) = requestDecryption w ciphertexts PerformClusteringSelector
        in Inr (w1\<lparr>requestToDataPointId := (requestToDataPointId w1)(reqId := dataPointId),
                  events := events w1 @ [ClusteringRequested dataPointId]\<rparr>))"

definition performClustering :: "fhe_env \<Rightarrow> world \<Rightarrow> nat \<Rightarrow> bytes \<Rightarrow> bytes \<Rightarrow> error + world" where
  "performClustering env w requestId cleartexts proofBytes =
     (let dataPointId = requestToDataPointId w requestId in
      if dataPointId = 0 then Inl InvalidRequest
      else if isClustered (decryptedDataPoints w dataPointId) then Inl AlreadyClustered
      else if \<not> checkSignatures env requestId cleartexts proofBytes then Inl InvalidProof
      else
        (case decodeStrings env cleartexts of
           None \<Rightarrow> Inl DecodeError
         | Some (f, ow, c) \<Rightarrow>
             let w1 = w\<lparr>decryptedDataPoints := (decryptedDataPoints w)(dataPointId :=
                          \<lparr>features = f, dataOwner = ow, clusterId = c, isClustered = True\<rparr>)\<rparr>;
                 w2 = (if isInitialized (encryptedClusterStats w1 c) = False
                       then w1\<lparr>encryptedClusterStats :=
                                  (encryptedClusterStats w1)(c := asEuint32 0),
                               clusterList := clusterList w1 @ [c]\<rparr>
                       else w1);
                 w3 = w2\<lparr>encryptedClusterStats := (encryptedClusterStats w2)(c :=
                          fhe_add (encryptedClusterStats w2 c) (asEuint32 1))\<rparr>
             in Inr (w3\<lparr>events := events w3 @ [DataPointClustered dataPointId]\<rparr>)))"

definition getDecryptedDataPoint :: "world \<Rightarrow> nat \<Rightarrow> string \<times> string \<times> string \<times> bool" where
  "getDecryptedDataPoint w dataPointId =
     (let dp = decryptedDataPoints w dataPointId
      in (features dp, dataOwner dp, clusterId dp, isClustered dp))"

definition getEncryptedClusterStats :: "world \<Rightarrow> string \<Rightarrow> euint32" where
  "getEncryptedClusterStats w c = encryptedClusterStats w c"

definition bytes32ToUint :: "nat \<Rightarrow> nat" where
  "bytes32ToUint b = b"

definition requestClusterStatsDecryption :: "fhe_env \<Rightarrow> world \<Rightarrow> string \<Rightarrow> error + world" where
  "requestClusterStatsDecryption env w c =
     (let stats = encryptedClusterStats w c in
      if \<not> isInitialized stats then Inl ClusterNotFound
      else
        let (reqId, w1) = requestDecryption w [stats] DecryptClusterStatsSelector
        in Inr (w1\<lparr>requestToDataPointId :=
                     (requestToDataPointId w1)(reqId := bytes32ToUint (keccak256 env c))\<rparr>))"

text \<open>
  The loop of \<^verbatim>\<open>getClusterFromHash\<close> walks the cluster list from index 0 and returns the
  first name whose hash is the one looked for; it reverts when it reaches the end.
\<close>

fun scanClusters :: "fhe_env \<Rightarrow> string list \<Rightarrow> nat \<Rightarrow> error + string" where
  "scanClusters env [] h = Inl ClusterNotFound"
| "scanClusters env (c # cs) h =
     (if bytes32ToUint (keccak256 env c) = h then Inr c else scanClusters env cs h)"

definition getClusterFromHash :: "fhe_env \<Rightarrow> world \<Rightarrow> nat \<Rightarrow> error + string" where
  "getClusterFromHash env w h = scanClusters env (clusterList w) h"

definition decryptClusterStats :: "fhe_env \<Rightarrow> world \<Rightarrow> nat \<Rightarrow> bytes \<Rightarrow> bytes \<Rightarrow> error + world" where
  "decryptClusterStats env w requestId cleartexts proofBytes =
     (let clusterHash = requestToDataPointId w requestId in
      case getClusterFromHash env w clusterHash of
        Inl e \<Rightarrow> Inl e
      | Inr c \<Rightarrow>
          if \<not> checkSignatures env requestId cleartexts proofBytes then Inl InvalidProof
          else (case decodeUint32 env cleartexts of
                  None \<Rightarrow> Inl DecodeError
                | Some stats \<Rightarrow> Inr w))"

section \<open>The read side: centroid and similarity\<close>

text \<open>
  The loop of \<^verbatim>\<open>calculateClusterCentroids\<close>, from \<open>i\<close> on, with the running \<open>count\<close> and
  the memory array \<open>allFeatures\<close>. A write \<^verbatim>\<open>allFeatures[count] = ...\<close> beyond the length of
  the array reverts with \<^verbatim>\<open>Panic(0x32)\<close>; the increment \<^verbatim>\<open>i++\<close> is checked. (The increment
  \<^verbatim>\<open>count++\<close> cannot overflow: it follows a write at index \<open>count\<close>, below the length of a
  memory array.)
\<close>

function centroidLoop ::
  "fhe_env \<Rightarrow> world \<Rightarrow> string \<Rightarrow> nat \<Rightarrow> nat \<Rightarrow> string list \<Rightarrow> error + (nat \<times> string list)" where
  "centroidLoop env w c i count allFeatures =
     (if i \<le> dataPointCount w then
        (if isClustered (decryptedDataPoints w i) \<and>
            keccak256 env (clusterId (decryptedDataPoints w i)) = keccak256 env c
         then
           (if count < length allFeatures then
              (if i = MAX_UINT256 then Inl ArithmeticOverflow
               else centroidLoop env w c (i + 1) (count + 1)
                      (allFeatures[count := features (decryptedDataPoints w i)]))
            else Inl IndexOutOfBounds)
         else
           (if i = MAX_UINT256 then Inl ArithmeticOverflow
            else centroidLoop env w c (i + 1) count allFeatures))
      else Inr (count, allFeatures))"
  by pat_completeness auto
termination
  by (relation "measure (\<lambda>(env, w, c, i, count, allFeatures). Suc (dataPointCount w) - i)") auto

declare centroidLoop.simps [simp del]

text \<open>
  \<^verbatim>\<open>string[] memory allFeatures;\<close> is declared and never allocated: the loop starts with the
  empty array.
\<close>

definition calculateClusterCentroids :: "fhe_env \<Rightarrow> world \<Rightarrow> string \<Rightarrow> error + string" where
  "calculateClusterCentroids env w c =
     (case centroidLoop env w c 1 0 [] of
        Inl e \<Rightarrow> Inl e
      | Inr (count, allFeatures) \<Rightarrow>
          if count > 0 then
            (if 0 < length allFeatures then Inr (allFeatures ! 0) else Inl IndexOutOfBounds)
          else Inr [])"

definition calculateSimilarity :: "fhe_env \<Rightarrow> string \<Rightarrow> string \<Rightarrow> nat" where
  "calculateSimilarity env features1 features2 =
     (if keccak256 env features1 = keccak256 env features2 then 100 else 50)"

text \<open>
  The two loops of \<^verbatim>\<open>findSimilarClusters\<close> over the cluster list: the first counts the
  clusters that meet the threshold, the second writes them into the array allocated with
  that length.
\<close>

fun countSimilar ::
  "fhe_env \<Rightarrow> world \<Rightarrow> string \<Rightarrow> nat \<Rightarrow> string list \<Rightarrow> nat \<Rightarrow> error + nat" where
  "countSimilar env w targetFeatures threshold [] count = Inr count"
| "countSimilar env w targetFeatures threshold (c # cs) count =
     (case calculateClusterCentroids env w c of
        Inl e \<Rightarrow> Inl e
      | Inr centroid \<Rightarrow>
          countSimilar env w targetFeatures threshold cs
            (if calculateSimilarity env targetFeatures centroid \<ge> threshold
             then count + 1 else count))"

fun fillSimilar ::
  "fhe_env \<Rightarrow> world \<Rightarrow> string \<Rightarrow> nat \<Rightarrow> string list \<Rightarrow> nat \<Rightarrow> string list
     \<Rightarrow> error + string list" where
  "fillSimilar env w targetFeatures threshold [] index similarClusters = Inr similarClusters"
| "fillSimilar env w targetFeatures threshold (c # cs) index similarClusters =
     (case calculateClusterCentroids env w c of
        Inl e \<Rightarrow> Inl e
      | Inr centroid \<Rightarrow>
          if calculateSimilarity env targetFeatures centroid \<ge> threshold then
            (if index < length similarClusters
             then fillSimilar env w targetFeatures threshold cs (index + 1)
                    (similarClusters[index := c])
             else Inl IndexOutOfBounds)
          else fillSimilar env w targetFeatures threshold cs index similarClusters)"

definition findSimilarClusters ::
  "fhe_env \<Rightarrow> world \<Rightarrow> string \<Rightarrow> nat \<Rightarrow> error + string list" where
  "findSimilarClusters env w targetFeatures similarityThreshold =
     (case countSimilar env w targetFeatures similarityThreshold (clusterList w) 0 of
        Inl e \<Rightarrow> Inl e
      | Inr count \<Rightarrow>
          fillSimilar env w targetFeatures similarityThreshold (clusterList w) 0
            (replicate count []))"

section \<open>Transactions and reachable states\<close>

text \<open>
  A transaction is a call of one of the five state-changing entry points. The block
  timestamp is an argument of a submission. A call that reverts leaves the state as it was.
\<close>

datatype call =
    Submit euint32 euint32 euint32 nat
  | RequestClustering nat
  | PerformClustering nat bytes bytes
  | RequestStats string
  | DecryptStats nat bytes bytes

fun step :: "fhe_env \<Rightarrow> world \<Rightarrow> call \<Rightarrow> error + world" where
  "step env w (Submit encF encO encC now) = submitEncryptedDataPoint w encF encO encC now"
| "step env w (RequestClustering dataPointId) = requestFederatedClustering w dataPointId"
| "step env w (PerformClustering requestId cleartexts proofBytes) =
     performClustering env w requestId cleartexts proofBytes"
| "step env w (RequestStats c) = requestClusterStatsDecryption env w c"
| "step env w (DecryptStats requestId cleartexts proofBytes) =
     decryptClusterStats env w requestId cleartexts proofBytes"

definition exec :: "fhe_env \<Rightarrow> world \<Rightarrow> call \<Rightarrow> world" where
  "exec env w c = (case step env w c of Inl e \<Rightarrow> w | Inr w' \<Rightarrow> w')"

definition run_from :: "fhe_env \<Rightarrow> world \<Rightarrow> call list \<Rightarrow> world" where
  "run_from env w cs = foldl (exec env) w cs"

text \<open>The reachable states are the states \<open>run env cs\<close>, for every list of calls.\<close>

definition run :: "fhe_env \<Rightarrow> call list \<Rightarrow> world" where
  "run env cs = run_from env init cs"

text \<open>
  The request ids that the calls of a trace registered in the pending-request map, in the
  order of their registration.
\<close>

fun issued :: "world \<Rightarrow> call \<Rightarrow> nat list" where
  "issued w (RequestClustering dataPointId) = [counterRequest w]"
| "issued w (RequestStats c) = [counterRequest w]"
| "issued w _ = []"

fun registered_from :: "fhe_env \<Rightarrow> world \<Rightarrow> call list \<Rightarrow> nat list" where
  "registered_from env w [] = []"
| "registered_from env w (c # cs) =
     (case step env w c of
        Inl e \<Rightarrow> registered_from env w cs
      | Inr w' \<Rightarrow> issued w c @ registered_from env w' cs)"

definition registered :: "fhe_env \<Rightarrow> call list \<Rightarrow> nat list" where
  "registered env cs = registered_from env init cs"

text \<open>The ids announced by the \<^verbatim>\<open>DataPointSubmitted\<close> events of a log, in order.\<close>

fun submittedIds :: "event list \<Rightarrow> nat list" where
  "submittedIds [] = []"
| "submittedIds (DataPointSubmitted i t # es) = i # submittedIds es"
| "submittedIds (_ # es) = submittedIds es"

text \<open>The decrypted value of the running count of a cluster.\<close>

definition aggregate :: "world \<Rightarrow> string \<Rightarrow> 32 word" where
  "aggregate w c = plaintext (encryptedClusterStats w c)"

text \<open>
  A concrete environment, to evaluate the model: a proof is valid when it is the string
  \<open>''ok''\<close>, three bytes decode to three one-character strings, a non-empty byte string
  decodes to its length, and the hash of a string reads its characters as digits in base 257.
\<close>

definition demo_hash :: "string \<Rightarrow> nat" where
  "demo_hash s = foldr (\<lambda>ch h. of_char ch + 1 + 257 * h) s 0"

definition demo_env :: fhe_env where
  "demo_env = \<lparr>checkSignatures = (\<lambda>requestId cleartexts proofBytes. proofBytes = ''ok''),
     decodeStrings = (\<lambda>bs. case bs of [a, b, c] \<Rightarrow> Some ([a], [b], [c]) | _ \<Rightarrow> None),
     decodeUint32 = (\<lambda>bs. if bs = [] then None else Some (of_nat (length bs))),
     keccak256 = demo_hash\<rparr>"

text \<open>
  A reachable state of that environment: two points are submitted and a decryption is
  requested for both (the oracle hands out the ids 0 and 1); the callback for request 0 has
  put point 1, with the features \<open>''f''\<close> and the owner \<open>''o''\<close>, into cluster \<open>''A''\<close>.
\<close>

definition demo_trace :: "call list" where
  "demo_trace =
     [Submit (Enc 7) (Enc 8) (Enc 9) 100, Submit (Enc 7) (Enc 8) (Enc 9) 101,
      RequestClustering 1, RequestClustering 2, PerformClustering 0 ''foA'' ''ok'']"

definition demo_world :: world where
  "demo_world = run demo_env demo_trace"

section \<open>Traces and the effect of each entry point\<close>

lemma run_from_snoc: "run_from env w (cs @ [c]) = exec env (run_from env w cs) c"
  by (simp add: run_from_def)

lemma run_snoc: "run env (cs @ [c]) = exec env (run env cs) c"
  by (simp add: run_def run_from_snoc)

lemma run_append: "run env (cs @ cs') = run_from env (run env cs) cs'"
  by (simp add: run_def run_from_def)

lemma run_from_invariant:
  assumes "P w" and "\<And>v c v'. P v \<Longrightarrow> step env v c = Inr v' \<Longrightarrow> P v'"
  shows "P (run_from env w cs)"
proof (induction cs rule: rev_induct)
  case Nil
  show ?case using assms(1) by (simp add: run_from_def)
next
  case (snoc c cs)
  show ?case
  proof (cases "step env (run_from env w cs) c")
    case (Inl e)
    then show ?thesis using snoc by (simp add: run_from_snoc exec_def)
  next
    case (Inr v')
    then show ?thesis using assms(2)[OF snoc Inr] by (simp add: run_from_snoc exec_def)
  qed
qed

lemma submit_Inr:
  assumes "submitEncryptedDataPoint w a b c t = Inr w'"
  shows "dataPointCount w < MAX_UINT256 \<or> MAX_UINT256 < dataPointCount w"
    and "dataPointCount w' = dataPointCount w + 1"
    and "decryptedDataPoints w' = (decryptedDataPoints w)(dataPointCount w + 1 :=
           \<lparr>features = [], dataOwner = [], clusterId = [], isClustered = False\<rparr>)"
    and "encryptedClusterStats w' = encryptedClusterStats w"
    and "clusterList w' = clusterList w"
    and "requestToDataPointId w' = requestToDataPointId w"
    and "counterRequest w' = counterRequest w"
    and "events w' = events w @ [DataPointSubmitted (dataPointCount w + 1) t]"
  using assms by (auto simp: submitEncryptedDataPoint_def Let_def split: if_splits)

lemma request_Inr:
  assumes "requestFederatedClustering w i = Inr w'"
  shows "\<not> isClustered (decryptedDataPoints w i)"
    and "dataPointCount w' = dataPointCount w"
    and "decryptedDataPoints w' = decryptedDataPoints w"
    and "encryptedClusterStats w' = encryptedClusterStats w"
    and "clusterList w' = clusterList w"
    and "requestToDataPointId w' = (requestToDataPointId w)(counterRequest w := i)"
    and "counterRequest w' = counterRequest w + 1"
    and "events w' = events w @ [ClusteringRequested i]"
  using assms
  by (auto simp: requestFederatedClustering_def requestDecryption_def Let_def split: if_splits)

lemma not_isInitialized: "(\<not> isInitialized x) = (x = Uninitialized)"
  by (cases x) simp_all

lemma perform_Inr:
  assumes "performClustering env w rid ct pf = Inr w'"
  obtains f ow c where
    "requestToDataPointId w rid \<noteq> 0"
    "\<not> isClustered (decryptedDataPoints w (requestToDataPointId w rid))"
    "checkSignatures env rid ct pf"
    "decodeStrings env ct = Some (f, ow, c)"
    "dataPointCount w' = dataPointCount w"
    "decryptedDataPoints w' = (decryptedDataPoints w)(requestToDataPointId w rid :=
        \<lparr>features = f, dataOwner = ow, clusterId = c, isClustered = True\<rparr>)"
    "encryptedClusterStats w' = (encryptedClusterStats w)(c :=
        Enc (plaintext (encryptedClusterStats w c) + 1))"
    "clusterList w' = (if isInitialized (encryptedClusterStats w c) then clusterList w
                       else clusterList w @ [c])"
    "requestToDataPointId w' = requestToDataPointId w"
    "counterRequest w' = counterRequest w"
    "events w' = events w @ [DataPointClustered (requestToDataPointId w rid)]"
  using assms
  by (auto simp: performClustering_def Let_def asEuint32_def fhe_add_def not_isInitialized
           split: if_splits option.splits)

lemma requestStats_Inr:
  assumes "requestClusterStatsDecryption env w c = Inr w'"
  shows "isInitialized (encryptedClusterStats w c)"
    and "dataPointCount w' = dataPointCount w"
    and "decryptedDataPoints w' = decryptedDataPoints w"
    and "encryptedClusterStats w' = encryptedClusterStats w"
    and "clusterList w' = clusterList w"
    and "requestToDataPointId w' =
           (requestToDataPointId w)(counterRequest w := bytes32ToUint (keccak256 env c))"
    and "counterRequest w' = counterRequest w + 1"
    and "events w' = events w"
  using assms
  by (auto simp: requestClusterStatsDecryption_def requestDecryption_def Let_def
           split: if_splits)

lemma decryptStats_Inr:
  assumes "decryptClusterStats env w rid ct pf = Inr w'"
  shows "w' = w"
  using assms
  by (auto simp: decryptClusterStats_def Let_def split: sum.splits if_splits option.splits)

lemma step_cases:
  assumes "step env v c = Inr v'"
  obtains (Submit) a b d t where "c = Submit a b d t" "submitEncryptedDataPoint v a b d t = Inr v'"
  | (Request) i where "c = RequestClustering i" "requestFederatedClustering v i = Inr v'"
  | (Perform) rid ct pf where "c = PerformClustering rid ct pf" "performClustering env v rid ct pf = Inr v'"
  | (ReqStats) cl where "c = RequestStats cl" "requestClusterStatsDecryption env v cl = Inr v'"
  | (DecStats) rid ct pf where "c = DecryptStats rid ct pf" "v' = v"
  using assms by (cases c) (auto dest: decryptStats_Inr)

subsection \<open>Invariants of the reachable states\<close>

lemma registry_step:
  assumes inv: "(\<forall>c. (c \<in> set (clusterList v)) = isInitialized (encryptedClusterStats v c)) \<and> distinct (clusterList v)"
    and st: "step env v c = Inr v'"
  shows "(\<forall>c. (c \<in> set (clusterList v')) = isInitialized (encryptedClusterStats v' c)) \<and> distinct (clusterList v')"
  using st
proof (cases rule: step_cases)
  case (Submit a b d t)
  from submit_Inr(4,5)[OF Submit(2)] inv show ?thesis by simp
next
  case (Request i)
  from request_Inr(4,5)[OF Request(2)] inv show ?thesis by simp
next
  case (Perform rid ct pf)
  from Perform(2) show ?thesis
  proof (rule perform_Inr)
    fix f ow cl
    assume s: "encryptedClusterStats v' = (encryptedClusterStats v)(cl := Enc (plaintext (encryptedClusterStats v cl) + 1))"
      and l: "clusterList v' = (if isInitialized (encryptedClusterStats v cl) then clusterList v else clusterList v @ [cl])"
    show ?thesis using inv by (auto simp: s l)
  qed
next
  case (ReqStats cl)
  from requestStats_Inr(4,5)[OF ReqStats(2)] inv show ?thesis by simp
next
  case (DecStats rid ct pf)
  with inv show ?thesis by simp
qed

lemma registry_invariant:
  "(\<forall>c. (c \<in> set (clusterList (run env cs))) = isInitialized (encryptedClusterStats (run env cs) c))
   \<and> distinct (clusterList (run env cs))"
  unfolding run_def
  by (rule run_from_invariant[where P = "\<lambda>w. (\<forall>c. (c \<in> set (clusterList w)) = isInitialized (encryptedClusterStats w c)) \<and> distinct (clusterList w)"])
     (simp add: init_def, erule registry_step, assumption)

lemma pending_step:
  assumes inv: "\<forall>r\<ge>counterRequest v. requestToDataPointId v r = 0"
    and st: "step env v c = Inr v'"
  shows "\<forall>r\<ge>counterRequest v'. requestToDataPointId v' r = 0"
  using st
proof (cases rule: step_cases)
  case (Submit a b d t)
  from submit_Inr(6,7)[OF Submit(2)] inv show ?thesis by simp
next
  case (Request i)
  from request_Inr(6,7)[OF Request(2)] inv show ?thesis by simp
next
  case (Perform rid ct pf)
  from Perform(2) inv show ?thesis by (auto elim!: perform_Inr)
next
  case (ReqStats cl)
  from requestStats_Inr(6,7)[OF ReqStats(2)] inv show ?thesis by simp
next
  case (DecStats rid ct pf)
  with inv show ?thesis by simp
qed

lemma pending_invariant:
  "\<forall>r\<ge>counterRequest (run env cs). requestToDataPointId (run env cs) r = 0"
  unfolding run_def
  by (rule run_from_invariant[where P = "\<lambda>w. \<forall>r\<ge>counterRequest w. requestToDataPointId w r = 0"])
     (simp add: init_def, erule pending_step, assumption)

lemma plain_step:
  assumes inv: "\<forall>i. \<not> isClustered (decryptedDataPoints v i) \<longrightarrow> decryptedDataPoints v i = emptyDecrypted"
    and st: "step env v c = Inr v'"
  shows "\<forall>i. \<not> isClustered (decryptedDataPoints v' i) \<longrightarrow> decryptedDataPoints v' i = emptyDecrypted"
  using st
proof (cases rule: step_cases)
  case (Submit a b d t)
  from submit_Inr(3)[OF Submit(2)] inv show ?thesis by (simp add: emptyDecrypted_def)
next
  case (Request i)
  from request_Inr(3)[OF Request(2)] inv show ?thesis by simp
next
  case (Perform rid ct pf)
  from Perform(2) inv show ?thesis by (auto elim!: perform_Inr)
next
  case (ReqStats cl)
  from requestStats_Inr(3)[OF ReqStats(2)] inv show ?thesis by simp
next
  case (DecStats rid ct pf)
  with inv show ?thesis by simp
qed

lemma plain_invariant:
  "\<forall>i. \<not> isClustered (decryptedDataPoints (run env cs) i)
        \<longrightarrow> decryptedDataPoints (run env cs) i = emptyDecrypted"
  unfolding run_def
  by (rule run_from_invariant[where P = "\<lambda>w. \<forall>i. \<not> isClustered (decryptedDataPoints w i) \<longrightarrow> decryptedDataPoints w i = emptyDecrypted"])
     (simp add: init_def emptyDecrypted_def, erule plain_step, assumption)

lemma member_step:
  assumes inv: "\<forall>i. isClustered (decryptedDataPoints v i) \<longrightarrow> clusterId (decryptedDataPoints v i) \<in> set (clusterList v)"
    and reg: "\<forall>c. (c \<in> set (clusterList v)) = isInitialized (encryptedClusterStats v c)"
    and st: "step env v c = Inr v'"
  shows "\<forall>i. isClustered (decryptedDataPoints v' i) \<longrightarrow> clusterId (decryptedDataPoints v' i) \<in> set (clusterList v')"
  using st
proof (cases rule: step_cases)
  case (Submit a b d t)
  from submit_Inr(3,5)[OF Submit(2)] inv show ?thesis by simp
next
  case (Request i)
  from request_Inr(3,5)[OF Request(2)] inv show ?thesis by simp
next
  case (Perform rid ct pf)
  from Perform(2) show ?thesis
  proof (rule perform_Inr)
    fix f ow cl
    assume d: "decryptedDataPoints v' = (decryptedDataPoints v)(requestToDataPointId v rid :=
        \<lparr>features = f, dataOwner = ow, clusterId = cl, isClustered = True\<rparr>)"
      and l: "clusterList v' = (if isInitialized (encryptedClusterStats v cl) then clusterList v else clusterList v @ [cl])"
      and "decodeStrings env ct = Some (f, ow, cl)"
    show ?thesis using inv reg by (auto simp: d l)
  qed
next
  case (ReqStats cl)
  from requestStats_Inr(3,5)[OF ReqStats(2)] inv show ?thesis by simp
next
  case (DecStats rid ct pf)
  with inv show ?thesis by simp
qed


lemma member_invariant:
  "\<forall>i. isClustered (decryptedDataPoints (run env cs) i)
        \<longrightarrow> clusterId (decryptedDataPoints (run env cs) i) \<in> set (clusterList (run env cs))"
proof -
  let ?R = "\<lambda>w. (\<forall>c. (c \<in> set (clusterList w)) = isInitialized (encryptedClusterStats w c))
                 \<and> distinct (clusterList w)"
  let ?M = "\<lambda>w. \<forall>i. isClustered (decryptedDataPoints w i)
                 \<longrightarrow> clusterId (decryptedDataPoints w i) \<in> set (clusterList w)"
  have "?R (run_from env init cs) \<and> ?M (run_from env init cs)"
  proof (rule run_from_invariant[where P = "\<lambda>w. ?R w \<and> ?M w"])
    show "?R init \<and> ?M init" by (simp add: init_def emptyDecrypted_def)
  next
    fix v c v'
    assume P: "?R v \<and> ?M v" and st: "step env v c = Inr v'"
    from P have R: "?R v" and M: "?M v" by blast+
    have "?R v'" by (rule registry_step[OF R st])
    moreover from R have "\<forall>c. (c \<in> set (clusterList v)) = isInitialized (encryptedClusterStats v c)" ..
    then have "?M v'" by (rule member_step[OF M _ st])
    ultimately show "?R v' \<and> ?M v'" ..
  qed
  then have "?M (run_from env init cs)" by blast
  then show ?thesis unfolding run_def .
qed

lemma submittedIds_snoc:
  "submittedIds (es @ [e]) =
     submittedIds es @ (case e of DataPointSubmitted i t \<Rightarrow> [i] | _ \<Rightarrow> [])"
  by (induction es rule: submittedIds.induct) (auto split: event.splits)

lemma ids_step:
  assumes inv: "dataPointCount v \<le> MAX_UINT256 \<and>
                submittedIds (events v) = [1..<Suc (dataPointCount v)]"
    and st: "step env v c = Inr v'"
  shows "dataPointCount v' \<le> MAX_UINT256 \<and>
         submittedIds (events v') = [1..<Suc (dataPointCount v')]"
  using st
proof (cases rule: step_cases)
  case (Submit a b d t)
  from submit_Inr(1,2,8)[OF Submit(2)] inv show ?thesis by (simp add: submittedIds_snoc)
next
  case (Request i)
  from request_Inr(2,8)[OF Request(2)] inv show ?thesis by (simp add: submittedIds_snoc)
next
  case (Perform rid ct pf)
  from Perform(2) inv show ?thesis by (auto elim!: perform_Inr simp: submittedIds_snoc)
next
  case (ReqStats cl)
  from requestStats_Inr(2,8)[OF ReqStats(2)] inv show ?thesis by simp
next
  case (DecStats rid ct pf)
  with inv show ?thesis by simp
qed

lemma ids_invariant:
  "dataPointCount (run env cs) \<le> MAX_UINT256 \<and>
   submittedIds (events (run env cs)) = [1..<Suc (dataPointCount (run env cs))]"
  unfolding run_def
  by (rule run_from_invariant[where P = "\<lambda>w. dataPointCount w \<le> MAX_UINT256 \<and>
         submittedIds (events w) = [1..<Suc (dataPointCount w)]"])
     (simp add: init_def, erule ids_step, assumption)

lemma clustered_step:
  assumes inv: "i \<le> dataPointCount v \<and> isClustered (decryptedDataPoints v i)"
    and st: "step env v c = Inr v'"
  shows "i \<le> dataPointCount v' \<and> isClustered (decryptedDataPoints v' i)"
  using st
proof (cases rule: step_cases)
  case (Submit a b d t)
  from submit_Inr(2,3)[OF Submit(2)] inv show ?thesis by simp
next
  case (Request j)
  from request_Inr(2,3)[OF Request(2)] inv show ?thesis by simp
next
  case (Perform rid ct pf)
  from Perform(2) inv show ?thesis by (auto elim!: perform_Inr)
next
  case (ReqStats cl)
  from requestStats_Inr(2,3)[OF ReqStats(2)] inv show ?thesis by simp
next
  case (DecStats rid ct pf)
  with inv show ?thesis by simp
qed

lemma clustered_stays:
  assumes "i \<le> dataPointCount w" and "isClustered (decryptedDataPoints w i)"
  shows "i \<le> dataPointCount (run_from env w cs) \<and>
         isClustered (decryptedDataPoints (run_from env w cs) i)"
  by (rule run_from_invariant[where P = "\<lambda>w. i \<le> dataPointCount w \<and>
         isClustered (decryptedDataPoints w i)"])
     (simp add: assms, erule clustered_step, assumption)

lemma run_from_Cons: "run_from env w (c # cs) = run_from env (exec env w c) cs"
  by (simp add: run_from_def)

lemma counter_step:
  assumes "step env v c = Inr v'"
  shows "counterRequest v' = counterRequest v + length (issued v c)"
  using assms
proof (cases rule: step_cases)
  case (Submit a b d t)
  from submit_Inr(7)[OF Submit(2)] Submit(1) show ?thesis by simp
next
  case (Request j)
  from request_Inr(7)[OF Request(2)] Request(1) show ?thesis by simp
next
  case (Perform rid ct pf)
  from Perform show ?thesis by (auto elim!: perform_Inr)
next
  case (ReqStats cl)
  from requestStats_Inr(7)[OF ReqStats(2)] ReqStats(1) show ?thesis by simp
next
  case (DecStats rid ct pf)
  then show ?thesis by simp
qed

lemma issued_cases: "issued v c = [] \<or> issued v c = [counterRequest v]"
  by (cases c) simp_all

lemma counter_mono: "counterRequest w \<le> counterRequest (run_from env w cs)"
proof (induction cs arbitrary: w)
  case Nil
  show ?case by (simp add: run_from_def)
next
  case (Cons c cs)
  have "counterRequest w \<le> counterRequest (exec env w c)"
    by (cases "step env w c") (simp_all add: exec_def counter_step)
  also have "\<dots> \<le> counterRequest (run_from env (exec env w c) cs)" by (rule Cons.IH)
  finally show ?case by (simp add: run_from_Cons)
qed

lemma registered_from_eq:
  "registered_from env w cs = [counterRequest w ..< counterRequest (run_from env w cs)]"
proof (induction cs arbitrary: w)
  case Nil
  show ?case by (simp add: run_from_def)
next
  case (Cons c cs)
  show ?case
  proof (cases "step env w c")
    case (Inl e)
    then have "exec env w c = w" by (simp add: exec_def)
    with Inl Cons.IH[of w] show ?thesis by (simp add: run_from_Cons)
  next
    case (Inr w')
    then have e: "exec env w c = w'" by (simp add: exec_def)
    have m: "counterRequest w' \<le> counterRequest (run_from env w' cs)" by (rule counter_mono)
    from issued_cases[of w c] show ?thesis
    proof
      assume i: "issued w c = []"
      with counter_step[OF Inr] have "counterRequest w' = counterRequest w" by simp
      with Inr i e Cons.IH[of w'] show ?thesis by (simp add: run_from_Cons)
    next
      assume i: "issued w c = [counterRequest w]"
      with counter_step[OF Inr] have "counterRequest w' = Suc (counterRequest w)" by simp
      with Inr i e m Cons.IH[of w'] show ?thesis
        by (simp add: run_from_Cons upt_conv_Cons)
    qed
  qed
qed

lemma registered_eq: "registered env cs = [0 ..< counterRequest (run env cs)]"
  by (simp add: registered_def run_def registered_from_eq init_def)

section \<open>What the read side computes\<close>

lemma scanClusters_finds:
  "c \<in> set cl \<Longrightarrow> \<exists>c'. scanClusters env cl (bytes32ToUint (keccak256 env c)) = Inr c'"
  by (induction cl) auto

text \<open>
  The centroid loop with the array it is given by \<open>calculateClusterCentroids\<close>: the first
  clustered record of the cluster makes it write at index 0 of an array of length 0.
\<close>

lemma centroidLoop_unallocated:
  assumes "dataPointCount w < MAX_UINT256"
  shows "centroidLoop env w c i 0 [] =
     (if \<exists>j. i \<le> j \<and> j \<le> dataPointCount w \<and> isClustered (decryptedDataPoints w j) \<and>
             keccak256 env (clusterId (decryptedDataPoints w j)) = keccak256 env c
      then Inl IndexOutOfBounds else Inr (0, []))"
proof (induction "Suc (dataPointCount w) - i" arbitrary: i)
  case 0
  then have "\<not> i \<le> dataPointCount w" by simp
  then show ?case by (subst centroidLoop.simps) auto
next
  case (Suc k)
  let ?M = "\<lambda>j. isClustered (decryptedDataPoints w j) \<and>
             keccak256 env (clusterId (decryptedDataPoints w j)) = keccak256 env c"
  from Suc.hyps(2) have le: "i \<le> dataPointCount w"
    and k: "k = Suc (dataPointCount w) - Suc i" by simp_all
  from le assms have ne: "i \<noteq> MAX_UINT256" by simp
  show ?case
  proof (cases "?M i")
    case True
    with le have "\<exists>j. i \<le> j \<and> j \<le> dataPointCount w \<and> ?M j" by blast
    moreover from True le have "centroidLoop env w c i 0 [] = Inl IndexOutOfBounds"
      by (subst centroidLoop.simps) simp
    ultimately show ?thesis by (simp only: if_True)
  next
    case False
    have step: "centroidLoop env w c i 0 [] = centroidLoop env w c (Suc i) 0 []"
      using False le ne by (subst centroidLoop.simps) auto
    have "\<And>j. (i \<le> j \<and> j \<le> dataPointCount w \<and> ?M j)
             = (Suc i \<le> j \<and> j \<le> dataPointCount w \<and> ?M j)"
      using False by (metis Suc_leD Suc_leI le_neq_implies_less)
    then have eq: "(\<exists>j. i \<le> j \<and> j \<le> dataPointCount w \<and> ?M j)
             = (\<exists>j. Suc i \<le> j \<and> j \<le> dataPointCount w \<and> ?M j)"
      by (rule arg_cong[where f = Ex, OF ext])
    show ?thesis by (simp only: step Suc.hyps(1)[OF k] eq)
  qed
qed

lemma calculateClusterCentroids_cases:
  assumes "dataPointCount w < MAX_UINT256"
  shows "calculateClusterCentroids env w c =
     (if \<exists>j. 1 \<le> j \<and> j \<le> dataPointCount w \<and> isClustered (decryptedDataPoints w j) \<and>
             keccak256 env (clusterId (decryptedDataPoints w j)) = keccak256 env c
      then Inl IndexOutOfBounds else Inr [])"
proof (cases "\<exists>j. 1 \<le> j \<and> j \<le> dataPointCount w \<and> isClustered (decryptedDataPoints w j) \<and>
             keccak256 env (clusterId (decryptedDataPoints w j)) = keccak256 env c")
  case True
  then have "centroidLoop env w c 1 0 [] = Inl IndexOutOfBounds"
    by (simp only: centroidLoop_unallocated[OF assms] if_True)
  with True show ?thesis by (simp only: calculateClusterCentroids_def if_True sum.case)
next
  case False
  then have "centroidLoop env w c 1 0 [] = Inr (0, [])"
    by (simp only: centroidLoop_unallocated[OF assms] if_False)
  with False show ?thesis by (simp only: calculateClusterCentroids_def if_False) simp
qed

text \<open>
  What \<open>findSimilarClusters\<close> does around the computation of the centroids: it reverts as
  soon as one centroid does, and otherwise returns, in the order of the registry, the
  clusters whose similarity score reaches the threshold.
\<close>

lemma countSimilar_fails:
  "c \<in> set cl \<Longrightarrow> calculateClusterCentroids env w c = Inl e \<Longrightarrow>
     \<exists>e'. countSimilar env w t thr cl n = Inl e'"
  by (induction cl arbitrary: n) (auto split: sum.splits)

lemma findSimilarClusters_fails:
  "c \<in> set (clusterList w) \<Longrightarrow> calculateClusterCentroids env w c = Inl e \<Longrightarrow>
     \<exists>e'. findSimilarClusters env w t thr = Inl e'"
  using countSimilar_fails[of c "clusterList w" env w e t thr 0]
  by (auto simp: findSimilarClusters_def)

lemma countSimilar_succeeds:
  assumes "\<forall>c\<in>set cl. \<exists>z. calculateClusterCentroids env w c = Inr z"
  shows "countSimilar env w t thr cl n =
     Inr (n + length (filter (\<lambda>c. \<exists>z. calculateClusterCentroids env w c = Inr z \<and>
                                   thr \<le> calculateSimilarity env t z) cl))"
  using assms by (induction cl arbitrary: n) auto

lemma fillSimilar_succeeds:
  assumes "\<forall>c\<in>set cl. \<exists>z. calculateClusterCentroids env w c = Inr z"
    and "index + length (filter (\<lambda>c. \<exists>z. calculateClusterCentroids env w c = Inr z \<and>
                                   thr \<le> calculateSimilarity env t z) cl) \<le> length out"
  shows "fillSimilar env w t thr cl index out =
     Inr (take index out @
          filter (\<lambda>c. \<exists>z. calculateClusterCentroids env w c = Inr z \<and>
                           thr \<le> calculateSimilarity env t z) cl @
          drop (index + length (filter (\<lambda>c. \<exists>z. calculateClusterCentroids env w c = Inr z \<and>
                                   thr \<le> calculateSimilarity env t z) cl)) out)"
  using assms
proof (induction cl arbitrary: index out)
  case Nil
  then show ?case by simp
next
  case (Cons c cl)
  let ?P = "\<lambda>c. \<exists>z. calculateClusterCentroids env w c = Inr z \<and>
                     thr \<le> calculateSimilarity env t z"
  from Cons.prems(1) obtain z where z: "calculateClusterCentroids env w c = Inr z" by auto
  from Cons.prems(1) have all: "\<forall>c\<in>set cl. \<exists>z. calculateClusterCentroids env w c = Inr z"
    by simp
  show ?case
  proof (cases "thr \<le> calculateSimilarity env t z")
    case True
    then have P: "?P c" using z by simp
    with Cons.prems(2) have lt: "index < length out"
      and b: "Suc index + length (filter ?P cl) \<le> length (out[index := c])" by simp_all
    have "fillSimilar env w t thr (c # cl) index out
            = fillSimilar env w t thr cl (Suc index) (out[index := c])"
      using z True lt by simp
    also have "\<dots> = Inr (take (Suc index) (out[index := c]) @ filter ?P cl @
                    drop (Suc index + length (filter ?P cl)) (out[index := c]))"
      by (rule Cons.IH[OF all b])
    also have "take (Suc index) (out[index := c]) = take index out @ [c]"
      using lt by (simp add: take_Suc_conv_app_nth)
    also have "drop (Suc index + length (filter ?P cl)) (out[index := c])
                 = drop (Suc index + length (filter ?P cl)) out"
      by simp
    finally have r: "fillSimilar env w t thr (c # cl) index out
        = Inr ((take index out @ [c]) @ filter ?P cl @
               drop (Suc index + length (filter ?P cl)) out)" .
    have f: "filter ?P (c # cl) = c # filter ?P cl"
      by (simp only: filter.simps P if_True)
    show ?thesis unfolding r f by simp
  next
    case False
    then have P: "\<not> ?P c" using z by simp
    with Cons.prems(2) have b: "index + length (filter ?P cl) \<le> length out" by simp
    have "fillSimilar env w t thr (c # cl) index out = fillSimilar env w t thr cl index out"
      using z False by simp
    then have r: "fillSimilar env w t thr (c # cl) index out
        = Inr (take index out @ filter ?P cl @ drop (index + length (filter ?P cl)) out)"
      by (simp only: Cons.IH[OF all b])
    have f: "filter ?P (c # cl) = filter ?P cl"
      by (simp only: filter.simps P if_False)
    show ?thesis unfolding r f ..
  qed
qed

lemma findSimilarClusters_succeeds:
  assumes "\<forall>c\<in>set (clusterList w). \<exists>z. calculateClusterCentroids env w c = Inr z"
  shows "findSimilarClusters env w t thr =
     Inr (filter (\<lambda>c. \<exists>z. calculateClusterCentroids env w c = Inr z \<and>
                          thr \<le> calculateSimilarity env t z) (clusterList w))"
  by (simp add: findSimilarClusters_def countSimilar_succeeds[OF assms]
        fillSimilar_succeeds[OF assms])

section \<open>The claims\<close>

lemmas eval_defs = run_def run_from_def exec_def init_def emptyEncrypted_def emptyDecrypted_def
  submitEncryptedDataPoint_def requestFederatedClustering_def performClustering_def
  requestClusterStatsDecryption_def decryptClusterStats_def getClusterFromHash_def
  requestDecryption_def bytes32ToUint_def asEuint32_def fhe_add_def aggregate_def
  MAX_UINT256_def Let_def

lemma performClustering_success:
  assumes "requestToDataPointId w rid = dpId" and "dpId \<noteq> 0"
    and "\<not> isClustered (decryptedDataPoints w dpId)"
    and "checkSignatures env rid ct pf"
    and "decodeStrings env ct = Some (f, ow, c)"
  shows "\<exists>w'. performClustering env w rid ct pf = Inr w'"
  using assms by (simp add: performClustering_def Let_def)

text \<open>
  C1. A decryption callback for a pending request of a record that is not yet clustered, with
  a valid proof and a cleartext that decodes to \<open>(f, ow, c)\<close>, succeeds; it writes the three
  strings into the record and sets \<open>isClustered\<close>, leaves the other records alone, adds one to
  the running count of cluster \<open>c\<close> (a 32-bit count) and to no other count, and every later
  callback for that record fails with \<open>AlreadyClustered\<close>. In particular, three submitted
  points whose decryptions complete with the cluster names A, A, B leave the registry
  \<open>[A, B]\<close> with the counts 2 and 1.
\<close>

theorem performClustering_completes_decryption:
  "(requestToDataPointId w rid = dpId \<and> dpId \<noteq> 0 \<and>
    \<not> isClustered (decryptedDataPoints w dpId) \<and>
    checkSignatures env rid ct pf \<and> decodeStrings env ct = Some (f, ow, c)
    \<longrightarrow> (\<exists>w'. performClustering env w rid ct pf = Inr w' \<and>
           decryptedDataPoints w' dpId =
             \<lparr>features = f, dataOwner = ow, clusterId = c, isClustered = True\<rparr> \<and>
           (\<forall>j. j \<noteq> dpId \<longrightarrow> decryptedDataPoints w' j = decryptedDataPoints w j) \<and>
           aggregate w' c = aggregate w c + 1 \<and>
           (\<forall>c'. c' \<noteq> c \<longrightarrow> aggregate w' c' = aggregate w c') \<and>
           (\<forall>rid' ct' pf'. requestToDataPointId w rid' = dpId \<longrightarrow>
              performClustering env w' rid' ct' pf' = Inl AlreadyClustered)))
   \<and>
   (checkSignatures env 0 ct1 pf1 \<and> checkSignatures env 1 ct2 pf2 \<and>
    checkSignatures env 2 ct3 pf3 \<and>
    decodeStrings env ct1 = Some (f1, ow1, ''A'') \<and>
    decodeStrings env ct2 = Some (f2, ow2, ''A'') \<and>
    decodeStrings env ct3 = Some (f3, ow3, ''B'')
    \<longrightarrow> (let final = run env
             [Submit a1 b1 c1 t1, Submit a2 b2 c2 t2, Submit a3 b3 c3 t3,
              RequestClustering 1, RequestClustering 2, RequestClustering 3,
              PerformClustering 0 ct1 pf1, PerformClustering 1 ct2 pf2,
              PerformClustering 2 ct3 pf3]
         in clusterList final = [''A'', ''B''] \<and>
            aggregate final ''A'' = 2 \<and> aggregate final ''B'' = 1))"
proof (rule conjI)
  show "requestToDataPointId w rid = dpId \<and> dpId \<noteq> 0 \<and>
    \<not> isClustered (decryptedDataPoints w dpId) \<and>
    checkSignatures env rid ct pf \<and> decodeStrings env ct = Some (f, ow, c)
    \<longrightarrow> (\<exists>w'. performClustering env w rid ct pf = Inr w' \<and>
           decryptedDataPoints w' dpId =
             \<lparr>features = f, dataOwner = ow, clusterId = c, isClustered = True\<rparr> \<and>
           (\<forall>j. j \<noteq> dpId \<longrightarrow> decryptedDataPoints w' j = decryptedDataPoints w j) \<and>
           aggregate w' c = aggregate w c + 1 \<and>
           (\<forall>c'. c' \<noteq> c \<longrightarrow> aggregate w' c' = aggregate w c') \<and>
           (\<forall>rid' ct' pf'. requestToDataPointId w rid' = dpId \<longrightarrow>
              performClustering env w' rid' ct' pf' = Inl AlreadyClustered))"
  proof (rule impI)
    assume h: "requestToDataPointId w rid = dpId \<and> dpId \<noteq> 0 \<and>
      \<not> isClustered (decryptedDataPoints w dpId) \<and>
      checkSignatures env rid ct pf \<and> decodeStrings env ct = Some (f, ow, c)"
    then obtain w' where s: "performClustering env w rid ct pf = Inr w'"
      using performClustering_success[of w rid dpId env ct pf f ow c] by blast
    from s h have d: "decryptedDataPoints w' = (decryptedDataPoints w)(dpId :=
          \<lparr>features = f, dataOwner = ow, clusterId = c, isClustered = True\<rparr>)"
      and e: "encryptedClusterStats w' = (encryptedClusterStats w)(c :=
          Enc (plaintext (encryptedClusterStats w c) + 1))"
      and r: "requestToDataPointId w' = requestToDataPointId w"
      by (auto elim!: perform_Inr)
    have "\<forall>rid' ct' pf'. requestToDataPointId w rid' = dpId \<longrightarrow>
            performClustering env w' rid' ct' pf' = Inl AlreadyClustered"
      using h by (simp add: performClustering_def Let_def d r)
    with s d e show "\<exists>w'. performClustering env w rid ct pf = Inr w' \<and>
           decryptedDataPoints w' dpId =
             \<lparr>features = f, dataOwner = ow, clusterId = c, isClustered = True\<rparr> \<and>
           (\<forall>j. j \<noteq> dpId \<longrightarrow> decryptedDataPoints w' j = decryptedDataPoints w j) \<and>
           aggregate w' c = aggregate w c + 1 \<and>
           (\<forall>c'. c' \<noteq> c \<longrightarrow> aggregate w' c' = aggregate w c') \<and>
           (\<forall>rid' ct' pf'. requestToDataPointId w rid' = dpId \<longrightarrow>
              performClustering env w' rid' ct' pf' = Inl AlreadyClustered)"
      by (simp add: aggregate_def)
  qed
next
  show "checkSignatures env 0 ct1 pf1 \<and> checkSignatures env 1 ct2 pf2 \<and>
    checkSignatures env 2 ct3 pf3 \<and>
    decodeStrings env ct1 = Some (f1, ow1, ''A'') \<and>
    decodeStrings env ct2 = Some (f2, ow2, ''A'') \<and>
    decodeStrings env ct3 = Some (f3, ow3, ''B'')
    \<longrightarrow> (let final = run env
             [Submit a1 b1 c1 t1, Submit a2 b2 c2 t2, Submit a3 b3 c3 t3,
              RequestClustering 1, RequestClustering 2, RequestClustering 3,
              PerformClustering 0 ct1 pf1, PerformClustering 1 ct2 pf2,
              PerformClustering 2 ct3 pf3]
         in clusterList final = [''A'', ''B''] \<and>
            aggregate final ''A'' = 2 \<and> aggregate final ''B'' = 1)"
    by (simp add: eval_defs)
qed

text \<open>
  The instance of the general statement at the state \<open>demo_world\<close>: the callback for
  request 1 finds record 2 unclustered and cluster A at count 1.
\<close>

theorem performClustering_completes_decryption_witness:
  "requestToDataPointId demo_world 1 = 2 \<and>
   \<not> isClustered (decryptedDataPoints demo_world 2) \<and>
   checkSignatures demo_env 1 ''gpA'' ''ok'' \<and>
   decodeStrings demo_env ''gpA'' = Some (''g'', ''p'', ''A'') \<and>
   aggregate demo_world ''A'' = 1 \<and>
   (\<exists>w'. performClustering demo_env demo_world 1 ''gpA'' ''ok'' = Inr w' \<and>
      decryptedDataPoints w' 2 =
        \<lparr>features = ''g'', dataOwner = ''p'', clusterId = ''A'', isClustered = True\<rparr> \<and>
      aggregate w' ''A'' = 2 \<and>
      performClustering demo_env w' 1 ''gpA'' ''ok'' = Inl AlreadyClustered)"
proof -
  have h1: "requestToDataPointId demo_world 1 = 2"
    and h2: "\<not> isClustered (decryptedDataPoints demo_world 2)"
    and h3: "checkSignatures demo_env 1 ''gpA'' ''ok''"
    and h4: "decodeStrings demo_env ''gpA'' = Some (''g'', ''p'', ''A'')"
    and h5: "aggregate demo_world ''A'' = 1"
    by (simp_all add: demo_world_def demo_trace_def eval_defs demo_env_def)
  have hyp: "requestToDataPointId demo_world 1 = 2 \<and> (2::nat) \<noteq> 0 \<and>
      \<not> isClustered (decryptedDataPoints demo_world 2) \<and>
      checkSignatures demo_env 1 ''gpA'' ''ok'' \<and>
      decodeStrings demo_env ''gpA'' = Some (''g'', ''p'', ''A'')"
    by (intro conjI h1 h2 h3 h4) simp
  from performClustering_completes_decryption[where w = demo_world and rid = 1 and dpId = 2
      and env = demo_env and ct = "''gpA''" and pf = "''ok''" and f = "''g''"
      and ow = "''p''" and c = "''A''", THEN conjunct1, THEN mp, OF hyp]
  obtain w' where r: "performClustering demo_env demo_world 1 ''gpA'' ''ok'' = Inr w' \<and>
           decryptedDataPoints w' 2 =
             \<lparr>features = ''g'', dataOwner = ''p'', clusterId = ''A'', isClustered = True\<rparr> \<and>
           (\<forall>j. j \<noteq> 2 \<longrightarrow> decryptedDataPoints w' j = decryptedDataPoints demo_world j) \<and>
           aggregate w' ''A'' = aggregate demo_world ''A'' + 1 \<and>
           (\<forall>c'. c' \<noteq> ''A'' \<longrightarrow> aggregate w' c' = aggregate demo_world c') \<and>
           (\<forall>rid' ct' pf'. requestToDataPointId demo_world rid' = 2 \<longrightarrow>
              performClustering demo_env w' rid' ct' pf' = Inl AlreadyClustered)" ..
  from r have r1: "performClustering demo_env demo_world 1 ''gpA'' ''ok'' = Inr w'"
    by (elim conjE)
  from r have r2: "decryptedDataPoints w' 2 =
             \<lparr>features = ''g'', dataOwner = ''p'', clusterId = ''A'', isClustered = True\<rparr>"
    by (elim conjE)
  from r have r3: "aggregate w' ''A'' = aggregate demo_world ''A'' + 1"
    by (elim conjE)
  from r have r4: "\<forall>rid' ct' pf'. requestToDataPointId demo_world rid' = 2 \<longrightarrow>
              performClustering demo_env w' rid' ct' pf' = Inl AlreadyClustered"
    by (elim conjE)
  from r4 h1 have again: "performClustering demo_env w' 1 ''gpA'' ''ok'' = Inl AlreadyClustered"
    by blast
  from r3 h5 have two: "aggregate w' ''A'' = 2" by simp
  have ex: "\<exists>w'. performClustering demo_env demo_world 1 ''gpA'' ''ok'' = Inr w' \<and>
      decryptedDataPoints w' 2 =
        \<lparr>features = ''g'', dataOwner = ''p'', clusterId = ''A'', isClustered = True\<rparr> \<and>
      aggregate w' ''A'' = 2 \<and>
      performClustering demo_env w' 1 ''gpA'' ''ok'' = Inl AlreadyClustered"
    by (rule exI[of _ w']) (intro conjI r1 r2 two again)
  show ?thesis by (intro conjI h1 h2 h3 h4 h5 ex)
qed

text \<open>
  C2, at a failing input. In \<open>demo_world\<close> record 1 is clustered, in cluster \<open>''A''\<close>, with the
  features \<open>''f''\<close>. The centroid of \<open>''A''\<close> is not \<open>''f''\<close>: the call reverts with an index out
  of bounds. The centroid of a cluster without a clustered member is the empty string.
\<close>

theorem calculateClusterCentroids_reverts_on_member:
  "dataPointCount demo_world = 2 \<and>
   decryptedDataPoints demo_world 1 =
     \<lparr>features = ''f'', dataOwner = ''o'', clusterId = ''A'', isClustered = True\<rparr> \<and>
   calculateClusterCentroids demo_env demo_world ''A'' = Inl IndexOutOfBounds \<and>
   calculateClusterCentroids demo_env demo_world ''B'' = Inr []"
  by (simp add: demo_world_def demo_trace_def eval_defs demo_env_def demo_hash_def
        calculateClusterCentroids_def centroidLoop.simps)

text \<open>
  C3. In every reachable state, a decryption callback whose request id was registered by
  none of the calls that led there fails, with \<open>InvalidRequest\<close>, and the transaction
  leaves the state as it was.
\<close>

theorem performClustering_unknown_request:
  "requestId \<notin> set (registered env cs) \<longrightarrow>
     performClustering env (run env cs) requestId cleartexts proofBytes = Inl InvalidRequest \<and>
     exec env (run env cs) (PerformClustering requestId cleartexts proofBytes) = run env cs"
proof
  assume "requestId \<notin> set (registered env cs)"
  then have "counterRequest (run env cs) \<le> requestId"
    by (simp add: registered_eq)
  with pending_invariant[of env cs] have "requestToDataPointId (run env cs) requestId = 0"
    by blast
  then have "performClustering env (run env cs) requestId cleartexts proofBytes = Inl InvalidRequest"
    by (simp add: performClustering_def)
  then show "performClustering env (run env cs) requestId cleartexts proofBytes = Inl InvalidRequest \<and>
     exec env (run env cs) (PerformClustering requestId cleartexts proofBytes) = run env cs"
    by (simp add: exec_def)
qed

theorem performClustering_unknown_request_witness:
  "registered demo_env demo_trace = [0, 1] \<and>
   performClustering demo_env (run demo_env demo_trace) 5 ''gpA'' ''ok'' = Inl InvalidRequest \<and>
   exec demo_env (run demo_env demo_trace) (PerformClustering 5 ''gpA'' ''ok'')
     = run demo_env demo_trace"
proof -
  have r: "registered demo_env demo_trace = [0, 1]"
    by (simp add: registered_def demo_trace_def eval_defs demo_env_def)
  then have "(5::nat) \<notin> set (registered demo_env demo_trace)" by simp
  with performClustering_unknown_request[of 5 demo_env demo_trace "''gpA''" "''ok''"]
  have "performClustering demo_env (run demo_env demo_trace) 5 ''gpA'' ''ok'' = Inl InvalidRequest \<and>
     exec demo_env (run demo_env demo_trace) (PerformClustering 5 ''gpA'' ''ok'')
       = run demo_env demo_trace"
    by (rule mp)
  with r show ?thesis by (rule conjI)
qed

text \<open>
  C4. A clustering request for a record that is already clustered fails with
  \<open>AlreadyClustered\<close>. In a reachable state, a request for a record that is not clustered
  succeeds: it registers the id in the pending-request map under a request id that no earlier
  call had registered, and changes no other entry of the map.
\<close>

theorem requestFederatedClustering_guard_and_fresh_id:
  "(isClustered (decryptedDataPoints w dataPointId) \<longrightarrow>
      requestFederatedClustering w dataPointId = Inl AlreadyClustered)
   \<and>
   (\<not> isClustered (decryptedDataPoints (run env cs) dataPointId) \<longrightarrow>
      (\<exists>w' requestId.
         requestFederatedClustering (run env cs) dataPointId = Inr w' \<and>
         requestId \<notin> set (registered env cs) \<and>
         registered env (cs @ [RequestClustering dataPointId]) = registered env cs @ [requestId] \<and>
         requestToDataPointId w' requestId = dataPointId \<and>
         (\<forall>r. r \<noteq> requestId \<longrightarrow>
            requestToDataPointId w' r = requestToDataPointId (run env cs) r)))"
proof (rule conjI)
  show "isClustered (decryptedDataPoints w dataPointId) \<longrightarrow>
      requestFederatedClustering w dataPointId = Inl AlreadyClustered"
    by (simp add: requestFederatedClustering_def Let_def)
next
  let ?w = "run env cs"
  show "\<not> isClustered (decryptedDataPoints ?w dataPointId) \<longrightarrow>
      (\<exists>w' requestId.
         requestFederatedClustering ?w dataPointId = Inr w' \<and>
         requestId \<notin> set (registered env cs) \<and>
         registered env (cs @ [RequestClustering dataPointId]) = registered env cs @ [requestId] \<and>
         requestToDataPointId w' requestId = dataPointId \<and>
         (\<forall>r. r \<noteq> requestId \<longrightarrow> requestToDataPointId w' r = requestToDataPointId ?w r))"
  proof
    assume n: "\<not> isClustered (decryptedDataPoints ?w dataPointId)"
    then obtain w' where s: "requestFederatedClustering ?w dataPointId = Inr w'"
      by (simp add: requestFederatedClustering_def requestDecryption_def Let_def)
    note m = request_Inr(6)[OF s] and k = request_Inr(7)[OF s]
    have e: "run env (cs @ [RequestClustering dataPointId]) = w'"
      using s by (simp add: run_snoc exec_def)
    have 1: "counterRequest ?w \<notin> set (registered env cs)"
      by (simp add: registered_eq)
    have 2: "registered env (cs @ [RequestClustering dataPointId])
               = registered env cs @ [counterRequest ?w]"
      by (simp add: registered_eq e k)
    have 3: "requestToDataPointId w' (counterRequest ?w) = dataPointId"
      by (simp add: m)
    have 4: "\<forall>r. r \<noteq> counterRequest ?w \<longrightarrow> requestToDataPointId w' r = requestToDataPointId ?w r"
      by (simp add: m)
    show "\<exists>w' requestId.
         requestFederatedClustering ?w dataPointId = Inr w' \<and>
         requestId \<notin> set (registered env cs) \<and>
         registered env (cs @ [RequestClustering dataPointId]) = registered env cs @ [requestId] \<and>
         requestToDataPointId w' requestId = dataPointId \<and>
         (\<forall>r. r \<noteq> requestId \<longrightarrow> requestToDataPointId w' r = requestToDataPointId ?w r)"
      by (rule exI[of _ w'], rule exI[of _ "counterRequest ?w"]) (intro conjI s 1 2 3 4)
  qed
qed


theorem requestFederatedClustering_guard_and_fresh_id_witness:
  "isClustered (decryptedDataPoints demo_world 1) \<and>
   requestFederatedClustering demo_world 1 = Inl AlreadyClustered \<and>
   \<not> isClustered (decryptedDataPoints (run demo_env demo_trace) 2) \<and>
   registered demo_env demo_trace = [0, 1] \<and>
   (\<exists>w' requestId.
      requestFederatedClustering (run demo_env demo_trace) 2 = Inr w' \<and>
      requestId \<notin> set (registered demo_env demo_trace) \<and>
      registered demo_env (demo_trace @ [RequestClustering 2])
        = registered demo_env demo_trace @ [requestId] \<and>
      requestToDataPointId w' requestId = 2 \<and>
      (\<forall>r. r \<noteq> requestId \<longrightarrow>
         requestToDataPointId w' r = requestToDataPointId (run demo_env demo_trace) r))"
proof -
  have c1: "isClustered (decryptedDataPoints demo_world 1)"
    and n2: "\<not> isClustered (decryptedDataPoints (run demo_env demo_trace) 2)"
    by (simp_all add: demo_world_def demo_trace_def eval_defs demo_env_def)
  have r: "registered demo_env demo_trace = [0, 1]"
    by (simp add: registered_def demo_trace_def eval_defs demo_env_def)
  note a = requestFederatedClustering_guard_and_fresh_id[where w = demo_world
      and dataPointId = 1, THEN conjunct1, THEN mp, OF c1]
  note b = requestFederatedClustering_guard_and_fresh_id[where env = demo_env
      and cs = demo_trace and dataPointId = 2, THEN conjunct2, THEN mp, OF n2]
  show ?thesis by (intro conjI c1 a n2 r b)
qed

text \<open>
  C5, as the specification orders the checks. The callback does not verify the proof before
  the double-callback guard: request 0 of \<open>demo_world\<close> belongs to record 1, which is
  clustered, the proof \<open>''bad''\<close> is invalid, and the call fails with
  \<open>AlreadyClustered\<close>, not with \<open>InvalidProof\<close>.
\<close>

theorem performClustering_invalid_proof_first_counterexample:
  "requestToDataPointId demo_world 0 = 1 \<and>
   isClustered (decryptedDataPoints demo_world 1) \<and>
   \<not> checkSignatures demo_env 0 ''foA'' ''bad'' \<and>
   performClustering demo_env demo_world 0 ''foA'' ''bad'' = Inl AlreadyClustered \<and>
   performClustering demo_env demo_world 0 ''foA'' ''bad'' \<noteq> Inl InvalidProof"
  by (simp add: demo_world_def demo_trace_def eval_defs demo_env_def)

text \<open>
  C5, as the contract orders the checks: once the lookup of the request id has succeeded, the
  guard on \<open>isClustered\<close> comes first. A callback for a record that is already clustered
  fails with \<open>AlreadyClustered\<close> whatever the proof is; a callback for a record that is not
  clustered fails with \<open>InvalidProof\<close> when the proof is invalid.
\<close>

theorem performClustering_guard_before_proof:
  "requestToDataPointId w requestId \<noteq> 0 \<longrightarrow>
     (isClustered (decryptedDataPoints w (requestToDataPointId w requestId)) \<longrightarrow>
        performClustering env w requestId cleartexts pf = Inl AlreadyClustered) \<and>
     (\<not> isClustered (decryptedDataPoints w (requestToDataPointId w requestId)) \<and>
      \<not> checkSignatures env requestId cleartexts pf \<longrightarrow>
        performClustering env w requestId cleartexts pf = Inl InvalidProof)"
  by (simp add: performClustering_def Let_def)

theorem performClustering_guard_before_proof_witness:
  "requestToDataPointId demo_world 0 \<noteq> 0 \<and>
   isClustered (decryptedDataPoints demo_world (requestToDataPointId demo_world 0)) \<and>
   performClustering demo_env demo_world 0 ''foA'' ''ok'' = Inl AlreadyClustered \<and>
   requestToDataPointId demo_world 1 \<noteq> 0 \<and>
   \<not> isClustered (decryptedDataPoints demo_world (requestToDataPointId demo_world 1)) \<and>
   \<not> checkSignatures demo_env 1 ''gpA'' ''bad'' \<and>
   performClustering demo_env demo_world 1 ''gpA'' ''bad'' = Inl InvalidProof"
proof -
  have h0: "requestToDataPointId demo_world 0 \<noteq> 0"
    and c0: "isClustered (decryptedDataPoints demo_world (requestToDataPointId demo_world 0))"
    and h1: "requestToDataPointId demo_world 1 \<noteq> 0"
    and n1: "\<not> isClustered (decryptedDataPoints demo_world (requestToDataPointId demo_world 1))"
    and p1: "\<not> checkSignatures demo_env 1 ''gpA'' ''bad''"
    by (simp_all add: demo_world_def demo_trace_def eval_defs demo_env_def)
  note a = performClustering_guard_before_proof[where w = demo_world and requestId = 0
      and env = demo_env and cleartexts = "''foA''" and pf = "''ok''",
      THEN mp, OF h0, THEN conjunct1, THEN mp, OF c0]
  have n1p1: "\<not> isClustered (decryptedDataPoints demo_world (requestToDataPointId demo_world 1)) \<and>
      \<not> checkSignatures demo_env 1 ''gpA'' ''bad''"
    by (intro conjI n1 p1)
  note b = performClustering_guard_before_proof[where w = demo_world and requestId = 1
      and env = demo_env and cleartexts = "''gpA''" and pf = "''bad''",
      THEN mp, OF h1, THEN conjunct2, THEN mp, OF n1p1]
  show ?thesis by (intro conjI h0 c0 a h1 n1 p1 b)
qed

text \<open>
  C6. In every reachable state the cluster registry holds no name twice. A successful
  callback that assigns a point to cluster \<open>c\<close> appends \<open>c\<close> when the registry does not hold
  it, and then no clustered record belongs to \<open>c\<close> yet; it leaves the registry as it is when
  \<open>c\<close> is there. No other entry point changes the registry.
\<close>

theorem clusterList_holds_each_cluster_once:
  "distinct (clusterList (run env cs)) \<and>
   (\<forall>requestId cleartexts pf w'.
      performClustering env (run env cs) requestId cleartexts pf = Inr w' \<longrightarrow>
      (\<exists>f ow c. decodeStrings env cleartexts = Some (f, ow, c) \<and>
         clusterList w' = (if c \<in> set (clusterList (run env cs)) then clusterList (run env cs)
                           else clusterList (run env cs) @ [c]) \<and>
         (c \<notin> set (clusterList (run env cs)) \<longrightarrow>
            (\<forall>i. isClustered (decryptedDataPoints (run env cs) i) \<longrightarrow>
                 clusterId (decryptedDataPoints (run env cs) i) \<noteq> c)))) \<and>
   (\<forall>a b d t w'. submitEncryptedDataPoint (run env cs) a b d t = Inr w' \<longrightarrow>
      clusterList w' = clusterList (run env cs)) \<and>
   (\<forall>i w'. requestFederatedClustering (run env cs) i = Inr w' \<longrightarrow>
      clusterList w' = clusterList (run env cs)) \<and>
   (\<forall>c w'. requestClusterStatsDecryption env (run env cs) c = Inr w' \<longrightarrow>
      clusterList w' = clusterList (run env cs)) \<and>
   (\<forall>requestId cleartexts pf w'.
      decryptClusterStats env (run env cs) requestId cleartexts pf = Inr w' \<longrightarrow>
      clusterList w' = clusterList (run env cs))"
proof (intro conjI allI impI)
  show "distinct (clusterList (run env cs))"
    using registry_invariant[of env cs] by blast
next
  fix requestId cleartexts pf w'
  assume s: "performClustering env (run env cs) requestId cleartexts pf = Inr w'"
  let ?w = "run env cs"
  from s show "\<exists>f ow c. decodeStrings env cleartexts = Some (f, ow, c) \<and>
         clusterList w' = (if c \<in> set (clusterList ?w) then clusterList ?w
                           else clusterList ?w @ [c]) \<and>
         (c \<notin> set (clusterList ?w) \<longrightarrow>
            (\<forall>i. isClustered (decryptedDataPoints ?w i) \<longrightarrow>
                 clusterId (decryptedDataPoints ?w i) \<noteq> c))"
  proof (rule perform_Inr)
    fix f ow c
    assume d: "decodeStrings env cleartexts = Some (f, ow, c)"
      and l: "clusterList w' = (if isInitialized (encryptedClusterStats ?w c) then clusterList ?w
                       else clusterList ?w @ [c])"
    have reg: "(c \<in> set (clusterList ?w)) = isInitialized (encryptedClusterStats ?w c)"
      using registry_invariant[of env cs] by blast
    have 2: "clusterList w' = (if c \<in> set (clusterList ?w) then clusterList ?w
                           else clusterList ?w @ [c])"
      by (simp add: l reg)
    have 3: "c \<notin> set (clusterList ?w) \<longrightarrow>
            (\<forall>i. isClustered (decryptedDataPoints ?w i) \<longrightarrow>
                 clusterId (decryptedDataPoints ?w i) \<noteq> c)"
      using member_invariant[of env cs] by blast
    show ?thesis
      by (rule exI[of _ f], rule exI[of _ ow], rule exI[of _ c]) (intro conjI d 2 3)
  qed
next
  fix a b d t w'
  assume "submitEncryptedDataPoint (run env cs) a b d t = Inr w'"
  then show "clusterList w' = clusterList (run env cs)" by (rule submit_Inr(5))
next
  fix i w'
  assume "requestFederatedClustering (run env cs) i = Inr w'"
  then show "clusterList w' = clusterList (run env cs)" by (rule request_Inr(5))
next
  fix c w'
  assume "requestClusterStatsDecryption env (run env cs) c = Inr w'"
  then show "clusterList w' = clusterList (run env cs)" by (rule requestStats_Inr(5))
next
  fix requestId cleartexts pf w'
  assume "decryptClusterStats env (run env cs) requestId cleartexts pf = Inr w'"
  then have "w' = run env cs" by (rule decryptStats_Inr)
  then show "clusterList w' = clusterList (run env cs)" by simp
qed


theorem clusterList_holds_each_cluster_once_witness:
  "clusterList (run demo_env demo_trace) = [''A''] \<and>
   distinct (clusterList (run demo_env demo_trace)) \<and>
   (\<exists>w'. performClustering demo_env (run demo_env demo_trace) 1 ''gpA'' ''ok'' = Inr w' \<and>
      clusterList w' = [''A'']) \<and>
   (\<exists>w'. performClustering demo_env (run demo_env demo_trace) 1 ''gpB'' ''ok'' = Inr w' \<and>
      clusterList w' = [''A'', ''B''])"
proof -
  let ?w = "run demo_env demo_trace"
  have l: "clusterList ?w = [''A'']"
    and h1: "requestToDataPointId ?w 1 = 2"
    and h2: "\<not> isClustered (decryptedDataPoints ?w 2)"
    and h3: "checkSignatures demo_env 1 ''gpA'' ''ok''"
    and h4: "decodeStrings demo_env ''gpA'' = Some (''g'', ''p'', ''A'')"
    and h5: "checkSignatures demo_env 1 ''gpB'' ''ok''"
    and h6: "decodeStrings demo_env ''gpB'' = Some (''g'', ''p'', ''B'')"
    by (simp_all add: demo_trace_def eval_defs demo_env_def)
  have h0: "(2::nat) \<noteq> 0" by simp
  note t = clusterList_holds_each_cluster_once[of demo_env demo_trace]
  from t have d: "distinct (clusterList ?w)" by (rule conjunct1)
  note p = t[THEN conjunct2, THEN conjunct1, rule_format]
  obtain wa where sa: "performClustering demo_env ?w 1 ''gpA'' ''ok'' = Inr wa"
    using performClustering_success[OF h1 h0 h2 h3 h4] ..
  from p[OF sa] obtain f ow c where "decodeStrings demo_env ''gpA'' = Some (f, ow, c) \<and>
      clusterList wa = (if c \<in> set (clusterList ?w) then clusterList ?w
                        else clusterList ?w @ [c]) \<and>
      (c \<notin> set (clusterList ?w) \<longrightarrow>
         (\<forall>i. isClustered (decryptedDataPoints ?w i) \<longrightarrow>
              clusterId (decryptedDataPoints ?w i) \<noteq> c))"
    by (elim exE)
  then have "clusterList wa = [''A'']" by (simp add: h4 l)
  with sa have ea: "\<exists>w'. performClustering demo_env ?w 1 ''gpA'' ''ok'' = Inr w' \<and>
      clusterList w' = [''A'']"
    by (intro exI[of _ wa] conjI)
  obtain wb where sb: "performClustering demo_env ?w 1 ''gpB'' ''ok'' = Inr wb"
    using performClustering_success[OF h1 h0 h2 h5 h6] ..
  from p[OF sb] obtain f ow c where "decodeStrings demo_env ''gpB'' = Some (f, ow, c) \<and>
      clusterList wb = (if c \<in> set (clusterList ?w) then clusterList ?w
                        else clusterList ?w @ [c]) \<and>
      (c \<notin> set (clusterList ?w) \<longrightarrow>
         (\<forall>i. isClustered (decryptedDataPoints ?w i) \<longrightarrow>
              clusterId (decryptedDataPoints ?w i) \<noteq> c))"
    by (elim exE)
  then have "clusterList wb = [''A'', ''B'']" by (auto simp: h6 l)
  with sb have eb: "\<exists>w'. performClustering demo_env ?w 1 ''gpB'' ''ok'' = Inr w' \<and>
      clusterList w' = [''A'', ''B'']"
    by (intro exI[of _ wb] conjI)
  show ?thesis by (intro conjI l d ea eb)
qed

text \<open>
  C7. In every reachable state, a record that is not clustered has empty plaintext fields.
  A data point record exists from its submission on, under an id from 1 to
  \<open>dataPointCount\<close>; once such a record is clustered it stays clustered through every
  further sequence of calls, so that \<open>isClustered\<close> changes at most once, from false to true.
\<close>

theorem plaintext_empty_until_clustered_once:
  "(\<not> isClustered (decryptedDataPoints (run env cs) i) \<longrightarrow>
      features (decryptedDataPoints (run env cs) i) = [] \<and>
      dataOwner (decryptedDataPoints (run env cs) i) = [] \<and>
      clusterId (decryptedDataPoints (run env cs) i) = [])
   \<and>
   (i \<le> dataPointCount (run env cs) \<and> isClustered (decryptedDataPoints (run env cs) i) \<longrightarrow>
      isClustered (decryptedDataPoints (run env (cs @ cs')) i))"
proof (rule conjI)
  show "\<not> isClustered (decryptedDataPoints (run env cs) i) \<longrightarrow>
      features (decryptedDataPoints (run env cs) i) = [] \<and>
      dataOwner (decryptedDataPoints (run env cs) i) = [] \<and>
      clusterId (decryptedDataPoints (run env cs) i) = []"
  proof
    assume "\<not> isClustered (decryptedDataPoints (run env cs) i)"
    with plain_invariant[of env cs]
    have "decryptedDataPoints (run env cs) i = emptyDecrypted" by blast
    then show "features (decryptedDataPoints (run env cs) i) = [] \<and>
      dataOwner (decryptedDataPoints (run env cs) i) = [] \<and>
      clusterId (decryptedDataPoints (run env cs) i) = []"
      by (simp add: emptyDecrypted_def)
  qed
next
  show "i \<le> dataPointCount (run env cs) \<and> isClustered (decryptedDataPoints (run env cs) i) \<longrightarrow>
      isClustered (decryptedDataPoints (run env (cs @ cs')) i)"
  proof
    assume "i \<le> dataPointCount (run env cs) \<and> isClustered (decryptedDataPoints (run env cs) i)"
    then have a: "i \<le> dataPointCount (run env cs)"
      and b: "isClustered (decryptedDataPoints (run env cs) i)" by blast+
    from clustered_stays[OF a b, of env cs']
    show "isClustered (decryptedDataPoints (run env (cs @ cs')) i)"
      by (simp add: run_append)
  qed
qed

theorem plaintext_empty_until_clustered_once_witness:
  "\<not> isClustered (decryptedDataPoints (run demo_env demo_trace) 2) \<and>
   features (decryptedDataPoints (run demo_env demo_trace) 2) = [] \<and>
   dataOwner (decryptedDataPoints (run demo_env demo_trace) 2) = [] \<and>
   clusterId (decryptedDataPoints (run demo_env demo_trace) 2) = [] \<and>
   1 \<le> dataPointCount (run demo_env demo_trace) \<and>
   isClustered (decryptedDataPoints (run demo_env demo_trace) 1) \<and>
   isClustered (decryptedDataPoints (run demo_env
      (demo_trace @ [Submit (Enc 1) (Enc 2) (Enc 3) 102, RequestClustering 1,
                     PerformClustering 1 ''gpB'' ''ok''])) 1)"
proof -
  let ?w = "run demo_env demo_trace"
  have n2: "\<not> isClustered (decryptedDataPoints ?w 2)"
    and a: "1 \<le> dataPointCount ?w"
    and b: "isClustered (decryptedDataPoints ?w 1)"
    by (simp_all add: demo_trace_def eval_defs demo_env_def)
  note e = plaintext_empty_until_clustered_once[where env = demo_env and cs = demo_trace
      and i = 2, THEN conjunct1, THEN mp, OF n2]
  have ab: "1 \<le> dataPointCount ?w \<and> isClustered (decryptedDataPoints ?w 1)"
    by (intro conjI a b)
  note s = plaintext_empty_until_clustered_once[where env = demo_env and cs = demo_trace
      and i = 1 and cs' = "[Submit (Enc 1) (Enc 2) (Enc 3) 102, RequestClustering 1,
                     PerformClustering 1 ''gpB'' ''ok'']", THEN conjunct2, THEN mp, OF ab]
  show ?thesis
    by (intro conjI n2 e[THEN conjunct1] e[THEN conjunct2, THEN conjunct1]
          e[THEN conjunct2, THEN conjunct2] a b s)
qed

text \<open>
  A storage slot beyond \<open>dataPointCount\<close> is not yet a record. The contract accepts a request
  and its callback for such an id, and the later submission that reaches the id writes the
  empty shadow over what the callback stored.
\<close>

lemma callback_before_submission_is_overwritten:
  "dataPointCount (run demo_env [RequestClustering 1, PerformClustering 0 ''foA'' ''ok'']) = 0 \<and>
   isClustered (decryptedDataPoints
     (run demo_env [RequestClustering 1, PerformClustering 0 ''foA'' ''ok'']) 1) \<and>
   \<not> isClustered (decryptedDataPoints
     (run demo_env [RequestClustering 1, PerformClustering 0 ''foA'' ''ok'',
                    Submit (Enc 7) (Enc 8) (Enc 9) 100]) 1)"
  by (simp add: eval_defs demo_env_def)

text \<open>
  C8. The ids announced by the submissions of a reachable state are 1, 2, ... up to
  \<open>dataPointCount\<close>, in this order. A further submission succeeds while the counter is below
  the largest \<^verbatim>\<open>uint256\<close>; it takes the next id, \<open>dataPointCount + 1\<close>, writes the records
  stored under that id and leaves the records under every other id as they are.
\<close>

theorem submitEncryptedDataPoint_ids_sequential:
  "submittedIds (events (run env cs)) = [1..<Suc (dataPointCount (run env cs))] \<and>
   sorted_wrt (<) (submittedIds (events (run env cs))) \<and>
   (dataPointCount (run env cs) < MAX_UINT256 \<longrightarrow>
      (\<exists>w'. submitEncryptedDataPoint (run env cs) a b d t = Inr w' \<and>
         dataPointCount w' = dataPointCount (run env cs) + 1 \<and>
         events w' = events (run env cs) @ [DataPointSubmitted (dataPointCount (run env cs) + 1) t] \<and>
         id_dp (encryptedDataPoints w' (dataPointCount (run env cs) + 1))
           = dataPointCount (run env cs) + 1 \<and>
         (\<forall>j. j \<noteq> dataPointCount (run env cs) + 1 \<longrightarrow>
            encryptedDataPoints w' j = encryptedDataPoints (run env cs) j \<and>
            decryptedDataPoints w' j = decryptedDataPoints (run env cs) j)))"
proof (intro conjI)
  show i: "submittedIds (events (run env cs)) = [1..<Suc (dataPointCount (run env cs))]"
    using ids_invariant[of env cs] by blast
  show "sorted_wrt (<) (submittedIds (events (run env cs)))"
    unfolding i by (rule sorted_wrt_upt)
  show "dataPointCount (run env cs) < MAX_UINT256 \<longrightarrow>
      (\<exists>w'. submitEncryptedDataPoint (run env cs) a b d t = Inr w' \<and>
         dataPointCount w' = dataPointCount (run env cs) + 1 \<and>
         events w' = events (run env cs) @ [DataPointSubmitted (dataPointCount (run env cs) + 1) t] \<and>
         id_dp (encryptedDataPoints w' (dataPointCount (run env cs) + 1))
           = dataPointCount (run env cs) + 1 \<and>
         (\<forall>j. j \<noteq> dataPointCount (run env cs) + 1 \<longrightarrow>
            encryptedDataPoints w' j = encryptedDataPoints (run env cs) j \<and>
            decryptedDataPoints w' j = decryptedDataPoints (run env cs) j))"
    by (simp add: submitEncryptedDataPoint_def Let_def)
qed


theorem submitEncryptedDataPoint_ids_sequential_witness:
  "submittedIds (events (run demo_env demo_trace)) = [1, 2] \<and>
   dataPointCount (run demo_env demo_trace) < MAX_UINT256 \<and>
   (\<exists>w'. submitEncryptedDataPoint (run demo_env demo_trace) (Enc 1) (Enc 2) (Enc 3) 102 = Inr w' \<and>
      dataPointCount w' = 3 \<and>
      events w' = events (run demo_env demo_trace) @ [DataPointSubmitted 3 102] \<and>
      id_dp (encryptedDataPoints w' 3) = 3)"
proof -
  let ?w = "run demo_env demo_trace"
  have n: "dataPointCount ?w = 2"
    by (simp add: demo_trace_def eval_defs demo_env_def)
  then have b: "dataPointCount ?w < MAX_UINT256" by (simp add: MAX_UINT256_def)
  note t = submitEncryptedDataPoint_ids_sequential[where env = demo_env and cs = demo_trace
      and a = "Enc 1" and b = "Enc 2" and d = "Enc 3" and t = 102]
  from t have "submittedIds (events ?w) = [1..<Suc (dataPointCount ?w)]" by (rule conjunct1)
  then have i: "submittedIds (events ?w) = [1, 2]" by (simp add: n upt_conv_Cons)
  from t[THEN conjunct2, THEN conjunct2, THEN mp, OF b]
  obtain w' where r: "submitEncryptedDataPoint ?w (Enc 1) (Enc 2) (Enc 3) 102 = Inr w' \<and>
         dataPointCount w' = dataPointCount ?w + 1 \<and>
         events w' = events ?w @ [DataPointSubmitted (dataPointCount ?w + 1) 102] \<and>
         id_dp (encryptedDataPoints w' (dataPointCount ?w + 1)) = dataPointCount ?w + 1 \<and>
         (\<forall>j. j \<noteq> dataPointCount ?w + 1 \<longrightarrow>
            encryptedDataPoints w' j = encryptedDataPoints ?w j \<and>
            decryptedDataPoints w' j = decryptedDataPoints ?w j)" ..
  from r have "submitEncryptedDataPoint ?w (Enc 1) (Enc 2) (Enc 3) 102 = Inr w' \<and>
      dataPointCount w' = 3 \<and>
      events w' = events ?w @ [DataPointSubmitted 3 102] \<and>
      id_dp (encryptedDataPoints w' 3) = 3"
    by (simp add: n)
  then have e: "\<exists>w'. submitEncryptedDataPoint ?w (Enc 1) (Enc 2) (Enc 3) 102 = Inr w' \<and>
      dataPointCount w' = 3 \<and>
      events w' = events ?w @ [DataPointSubmitted 3 102] \<and>
      id_dp (encryptedDataPoints w' 3) = 3"
    by (rule exI[of _ w'])
  show ?thesis by (intro conjI i b e)
qed

text \<open>
  C9, at a failing input. The registry of \<open>demo_world\<close> is \<open>[''A'']\<close> and the one clustered
  member of \<open>''A''\<close> has the features \<open>''f''\<close>; the search for the clusters similar to \<open>''f''\<close>
  reverts, for the threshold 100 and for the threshold 0, because the computation of the
  centroid of \<open>''A''\<close> does.
\<close>

theorem findSimilarClusters_reverts_on_populated_cluster:
  "clusterList demo_world = [''A''] \<and>
   features (decryptedDataPoints demo_world 1) = ''f'' \<and>
   calculateSimilarity demo_env ''f'' ''f'' = 100 \<and>
   findSimilarClusters demo_env demo_world ''f'' 100 = Inl IndexOutOfBounds \<and>
   findSimilarClusters demo_env demo_world ''f'' 0 = Inl IndexOutOfBounds"
  by (simp add: demo_world_def demo_trace_def eval_defs demo_env_def demo_hash_def
        findSimilarClusters_def calculateClusterCentroids_def calculateSimilarity_def
        centroidLoop.simps)

text \<open>
  C10. The callback for a decrypted cluster count writes nothing: whenever it succeeds the
  state is the one before the call, and a call that reverts leaves the state as it was in
  any case. The call does succeed for a request id that \<open>requestClusterStatsDecryption\<close>
  registered in a reachable state, with a valid proof and a cleartext that decodes to a
  \<^verbatim>\<open>uint32\<close>; the decoded count is dropped.
\<close>

theorem decryptClusterStats_changes_nothing:
  "(\<forall>w'. decryptClusterStats env w requestId cleartexts pf = Inr w' \<longrightarrow> w' = w) \<and>
   exec env w (DecryptStats requestId cleartexts pf) = w \<and>
   (requestClusterStatsDecryption env (run env cs) c = Inr w1 \<and>
    checkSignatures env (counterRequest (run env cs)) cleartexts pf \<and>
    decodeUint32 env cleartexts = Some n \<longrightarrow>
      decryptClusterStats env w1 (counterRequest (run env cs)) cleartexts pf = Inr w1)"
proof (intro conjI)
  show f: "\<forall>w'. decryptClusterStats env w requestId cleartexts pf = Inr w' \<longrightarrow> w' = w"
    by (blast dest: decryptStats_Inr)
  show "exec env w (DecryptStats requestId cleartexts pf) = w"
    by (cases "decryptClusterStats env w requestId cleartexts pf")
       (simp_all add: exec_def decryptStats_Inr)
  show "requestClusterStatsDecryption env (run env cs) c = Inr w1 \<and>
    checkSignatures env (counterRequest (run env cs)) cleartexts pf \<and>
    decodeUint32 env cleartexts = Some n \<longrightarrow>
      decryptClusterStats env w1 (counterRequest (run env cs)) cleartexts pf = Inr w1"
  proof
    assume h: "requestClusterStatsDecryption env (run env cs) c = Inr w1 \<and>
      checkSignatures env (counterRequest (run env cs)) cleartexts pf \<and>
      decodeUint32 env cleartexts = Some n"
    then have s: "requestClusterStatsDecryption env (run env cs) c = Inr w1" by blast
    from requestStats_Inr(1)[OF s] registry_invariant[of env cs]
    have "c \<in> set (clusterList (run env cs))" by blast
    with requestStats_Inr(5)[OF s] have "c \<in> set (clusterList w1)" by simp
    then obtain c' where
      "scanClusters env (clusterList w1) (bytes32ToUint (keccak256 env c)) = Inr c'"
      using scanClusters_finds by blast
    moreover have "requestToDataPointId w1 (counterRequest (run env cs))
                     = bytes32ToUint (keccak256 env c)"
      by (simp add: requestStats_Inr(6)[OF s])
    ultimately show "decryptClusterStats env w1 (counterRequest (run env cs)) cleartexts pf = Inr w1"
      using h by (simp add: decryptClusterStats_def getClusterFromHash_def Let_def)
  qed
qed

theorem decryptClusterStats_changes_nothing_witness:
  "counterRequest (run demo_env demo_trace) = 2 \<and>
   checkSignatures demo_env 2 ''x'' ''ok'' \<and>
   decodeUint32 demo_env ''x'' = Some 1 \<and>
   (\<exists>w1. requestClusterStatsDecryption demo_env (run demo_env demo_trace) ''A'' = Inr w1 \<and>
      requestToDataPointId w1 2 = 66 \<and>
      decryptClusterStats demo_env w1 2 ''x'' ''ok'' = Inr w1 \<and>
      exec demo_env w1 (DecryptStats 2 ''x'' ''ok'') = w1)"
proof -
  let ?w = "run demo_env demo_trace"
  have k: "counterRequest ?w = 2"
    and i: "isInitialized (encryptedClusterStats ?w ''A'')"
    by (simp_all add: demo_trace_def eval_defs demo_env_def)
  have p: "checkSignatures demo_env 2 ''x'' ''ok''"
    and d: "decodeUint32 demo_env ''x'' = Some 1"
    and h: "bytes32ToUint (keccak256 demo_env ''A'') = 66"
    by (simp_all add: demo_env_def demo_hash_def bytes32ToUint_def)
  from i obtain w1 where s: "requestClusterStatsDecryption demo_env ?w ''A'' = Inr w1"
    by (simp add: requestClusterStatsDecryption_def requestDecryption_def Let_def)
  have m: "requestToDataPointId w1 2 = 66"
    by (simp add: requestStats_Inr(6)[OF s] k h)
  have hyp: "requestClusterStatsDecryption demo_env ?w ''A'' = Inr w1 \<and>
    checkSignatures demo_env (counterRequest ?w) ''x'' ''ok'' \<and>
    decodeUint32 demo_env ''x'' = Some 1"
    unfolding k by (intro conjI s p d)
  note t = decryptClusterStats_changes_nothing[where env = demo_env and w = w1
      and requestId = 2 and cleartexts = "''x''" and pf = "''ok''" and cs = demo_trace
      and c = "''A''" and ?w1.0 = w1 and n = 1]
  from t[THEN conjunct2, THEN conjunct2, THEN mp, OF hyp]
  have r: "decryptClusterStats demo_env w1 2 ''x'' ''ok'' = Inr w1" unfolding k .
  from t have e: "exec demo_env w1 (DecryptStats 2 ''x'' ''ok'') = w1"
    by (elim conjE)
  have "\<exists>w1. requestClusterStatsDecryption demo_env ?w ''A'' = Inr w1 \<and>
      requestToDataPointId w1 2 = 66 \<and>
      decryptClusterStats demo_env w1 2 ''x'' ''ok'' = Inr w1 \<and>
      exec demo_env w1 (DecryptStats 2 ''x'' ''ok'') = w1"
    by (rule exI[of _ w1]) (intro conjI s m r e)
  with k p d show ?thesis by (intro conjI)
qed

end
